theory Spec2Isabelle
  imports Complex_Main
begin

section \<open>Crawler verification: a shallow embedding of bot-verification.py\<close>

text \<open>
  The module verifies that a request declaring a crawler User-Agent comes from that
  crawler's infrastructure. Python strings are modelled as \<open>string\<close>, restricted to
  ASCII: \<open>str.lower\<close> and the case-insensitive regular expressions act on the letters
  A to Z only. Everything the module reads from outside (the clock, the resolver, the
  HTTP fetch, the \<open>ipaddress\<close> parsers) is a field of the record \<open>world\<close>; the one piece
  of module state, \<open>_ip_range_cache\<close>, is threaded explicitly.
\<close>

subsection \<open>Exceptions\<close>

text \<open>
  The exception classes that matter for the handlers of the module. \<open>socket.herror\<close>,
  \<open>socket.gaierror\<close> and \<open>urllib.error.URLError\<close> are subclasses of \<open>OSError\<close>;
  \<open>UnicodeError\<close> is a subclass of \<open>ValueError\<close>; none of \<open>ValueError\<close>,
  \<open>TypeError\<close>, \<open>AttributeError\<close> is an \<open>OSError\<close>.
\<close>

datatype exn = Herror | Gaierror | OSError | URLError
  | UnicodeError | ValueError | TypeError | AttributeError

fun is_OSError :: "exn \<Rightarrow> bool" where
  "is_OSError Herror = True"
| "is_OSError Gaierror = True"
| "is_OSError OSError = True"
| "is_OSError URLError = True"
| "is_OSError _ = False"

subsection \<open>JSON values, as \<open>json.loads\<close> returns them\<close>

datatype json = JNull | JBool bool | JInt int | JFloat real | JStr string
  | JArr "json list" | JObj "(string \<times> json) list"

text \<open>
  An object is the association list of the decoded \<open>dict\<close>, so its keys are distinct
  (\<open>json.loads\<close> keeps the last value of a repeated key). The non-standard numbers
  \<open>NaN\<close> and \<open>Infinity\<close> that \<open>json.loads\<close> accepts are not represented; they
  behave like any non-zero float here.
\<close>

text \<open>Python truthiness of a decoded JSON value.\<close>

fun truthy :: "json \<Rightarrow> bool" where
  "truthy JNull = False"
| "truthy (JBool b) = b"
| "truthy (JInt n) = (n \<noteq> 0)"
| "truthy (JFloat x) = (x \<noteq> 0)"
| "truthy (JStr s) = (s \<noteq> [])"
| "truthy (JArr xs) = (xs \<noteq> [])"
| "truthy (JObj kvs) = (kvs \<noteq> [])"

subsection \<open>Static tables\<close>

definition CRAWLER_IP_RANGE_SOURCES :: "(string \<times> string option) list" where
  "CRAWLER_IP_RANGE_SOURCES =
    [(''googlebot'', Some ''https://developers.google.com/search/apis/ipranges/googlebot.json''),
     (''google-special-crawlers'',
        Some ''https://developers.google.com/search/apis/ipranges/special-crawlers.json''),
     (''bingbot'', None)]"

text \<open>
  The fragment of regular expressions the pattern table uses: literal characters (an
  escaped dot is the literal dot), a non-capturing group of literal alternatives, and
  the end anchor.
\<close>

datatype regex = Chars string | Alts "string list" | EndAnchor

definition CRAWLER_RDNS_PATTERNS :: "(string \<times> regex list list) list" where
  "CRAWLER_RDNS_PATTERNS =
    [(''googlebot'', [[Chars ''googlebot.com'', EndAnchor], [Chars ''google.com'', EndAnchor]]),
     (''bingbot'', [[Chars ''search.msn.com'', EndAnchor]]),
     (''applebot'', [[Chars ''applebot.apple.com'', EndAnchor]]),
     (''yandexbot'', [[Chars ''yandex.'', Alts [''ru'', ''net'', ''com''], EndAnchor]]),
     (''duckduckbot'', [[Chars ''duckduckgo.com'', EndAnchor]]),
     (''baiduspider'', [[Chars ''crawl.baidu.'', Alts [''com'', ''jp''], EndAnchor]])]"

definition UA_TO_CRAWLER_KEY :: "(string \<times> string) list" where
  "UA_TO_CRAWLER_KEY =
    [(''googlebot'', ''googlebot''),
     (''google-inspectiontool'', ''googlebot''),
     (''google-read-aloud'', ''googlebot''),
     (''mediapartners-google'', ''googlebot''),
     (''bingbot'', ''bingbot''),
     (''msnbot'', ''bingbot''),
     (''applebot'', ''applebot''),
     (''yandexbot'', ''yandexbot''),
     (''yandex'', ''yandexbot''),
     (''duckduckbot'', ''duckduckbot''),
     (''baiduspider'', ''baiduspider'')]"

definition IP_RANGE_CACHE_TTL :: real where
  "IP_RANGE_CACHE_TTL = 4 * 3600"

subsection \<open>Strings\<close>

text \<open>\<open>str.lower\<close> on ASCII: the letters A to Z go to a to z, every other character stays.\<close>

definition lower_char :: "char \<Rightarrow> char" where
  "lower_char c =
    (case map_of (zip ''ABCDEFGHIJKLMNOPQRSTUVWXYZ'' ''abcdefghijklmnopqrstuvwxyz'') c of
       Some d \<Rightarrow> d
     | None \<Rightarrow> c)"

definition lower :: "string \<Rightarrow> string" where
  "lower s = map lower_char s"

definition startswith :: "string \<Rightarrow> string \<Rightarrow> bool" where
  "startswith s p = (take (length p) s = p)"

text \<open>\<open>contains s p\<close> is Python's \<open>p in s\<close> on strings.\<close>

fun contains :: "string \<Rightarrow> string \<Rightarrow> bool" where
  "contains [] p = (p = [])"
| "contains (c # s) p = (startswith (c # s) p \<or> contains s p)"

subsection \<open>Regular expressions with \<open>re.IGNORECASE\<close>\<close>

text \<open>
  \<open>rx_match p s\<close>: the pattern matches at the start of \<open>s\<close>. Without
  \<open>re.MULTILINE\<close> the anchor \<open>$\<close> matches at the end of the string and just before a
  newline that ends it.
\<close>

fun rx_match :: "regex list \<Rightarrow> string \<Rightarrow> bool" where
  "rx_match [] s = True"
| "rx_match (Chars cs # p) s =
     (startswith (lower s) (lower cs) \<and> rx_match p (drop (length cs) s))"
| "rx_match (Alts as # p) s =
     list_ex (\<lambda>a. startswith (lower s) (lower a) \<and> rx_match p (drop (length a) s)) as"
| "rx_match (EndAnchor # p) s = ((s = [] \<or> s = [CHR 0x0A]) \<and> rx_match p s)"

text \<open>\<open>re.search\<close>: a match at some position of the string.\<close>

fun re_search :: "regex list \<Rightarrow> string \<Rightarrow> bool" where
  "re_search p [] = rx_match p []"
| "re_search p (c # s) = (rx_match p (c # s) \<or> re_search p s)"

subsection \<open>The result type, the world and the state\<close>

record CrawlerVerificationResult =
  ip_address :: string
  user_agent :: string
  claimed_crawler :: "string option"
  rdns_hostname :: "string option"
  rdns_verified :: bool
  ip_range_verified :: bool
  is_legitimate :: bool
  reason :: string

text \<open>
  What one call sees of the outside: \<open>clock\<close> is \<open>time.time()\<close>;
  \<open>gethostbyaddr\<close> gives the primary host name of \<open>socket.gethostbyaddr\<close> or the
  exception it raises; \<open>getaddrinfo\<close> gives the address strings \<open>r[4][0]\<close> of the
  results of \<open>socket.getaddrinfo(hostname, None)\<close> or the exception;
  \<open>urlopen_json\<close> gives \<open>json.loads\<close> of the body read from \<open>urlopen(url, timeout=10)\<close>
  or the exception of any of the three steps; \<open>ip_address_parse\<close> and
  \<open>ip_network_parse\<close> are \<open>ipaddress.ip_address\<close> and
  \<open>ipaddress.ip_network(_, strict=False)\<close>, with \<open>None\<close> for \<open>ValueError\<close>, and
  \<open>net_contains n a\<close> is \<open>a in n\<close>.
\<close>

record ('a, 'n) world =
  clock :: real
  gethostbyaddr :: "string \<Rightarrow> exn + string"
  getaddrinfo :: "string \<Rightarrow> exn + string list"
  urlopen_json :: "string \<Rightarrow> exn + json"
  ip_address_parse :: "string \<Rightarrow> 'a option"
  ip_network_parse :: "json \<Rightarrow> 'n option"
  net_contains :: "'n \<Rightarrow> 'a \<Rightarrow> bool"

text \<open>
  The module state: the cache \<open>_ip_range_cache\<close>, and the list of the URLs handed to
  \<open>urlopen\<close> so far (oldest first), which records the network calls issued.
\<close>

record state =
  ip_range_cache :: "string \<rightharpoonup> (json list \<times> real)"
  net_calls :: "string list"

subsection \<open>Identity classifier\<close>

text \<open>The loop of \<open>extract_crawler_identity\<close> over the items of the table, in order.\<close>

fun first_fragment :: "(string \<times> string) list \<Rightarrow> string \<Rightarrow> string option" where
  "first_fragment [] ua_lower = None"
| "first_fragment ((ua_fragment, crawler_key) # rest) ua_lower =
     (if contains ua_lower ua_fragment then Some crawler_key
      else first_fragment rest ua_lower)"

definition extract_crawler_identity :: "string \<Rightarrow> string option" where
  "extract_crawler_identity ua = first_fragment UA_TO_CRAWLER_KEY (lower ua)"

subsection \<open>Dual-DNS verifier\<close>

text \<open>
  \<open>reverse_dns_lookup\<close> catches \<open>(socket.herror, socket.gaierror, OSError)\<close> and
  returns \<open>None\<close>; any other exception of the resolver call leaves the function.
\<close>

definition reverse_dns_lookup :: "('a, 'n) world \<Rightarrow> string \<Rightarrow> exn + string option" where
  "reverse_dns_lookup w ip =
    (case gethostbyaddr w ip of
       Inr hostname \<Rightarrow> Inr (Some hostname)
     | Inl e \<Rightarrow> if is_OSError e then Inr None else Inl e)"

text \<open>
  \<open>forward_dns_lookup\<close> returns \<open>list(set(...))\<close> of the addresses, and the empty list
  when \<open>(socket.gaierror, OSError)\<close> is caught. The order of the list is not fixed by
  Python; only membership is used.
\<close>

definition forward_dns_lookup :: "('a, 'n) world \<Rightarrow> string \<Rightarrow> exn + string list" where
  "forward_dns_lookup w hostname =
    (case getaddrinfo w hostname of
       Inr results \<Rightarrow> Inr (remdups results)
     | Inl e \<Rightarrow> if is_OSError e then Inr [] else Inl e)"

definition rdns_patterns :: "string \<Rightarrow> regex list list" where
  "rdns_patterns crawler_key =
    (case map_of CRAWLER_RDNS_PATTERNS crawler_key of None \<Rightarrow> [] | Some ps \<Rightarrow> ps)"

definition verify_rdns ::
  "('a, 'n) world \<Rightarrow> string \<Rightarrow> string \<Rightarrow> exn + (bool \<times> string option)" where
  "verify_rdns w ip crawler_key =
    (case reverse_dns_lookup w ip of
       Inl e \<Rightarrow> Inl e
     | Inr None \<Rightarrow> Inr (False, None)
     | Inr (Some hostname) \<Rightarrow>
         if hostname = [] then Inr (False, None)
         else
           let patterns = rdns_patterns crawler_key;
               hostname_matches = list_ex (\<lambda>pattern. re_search pattern hostname) patterns
           in if \<not> hostname_matches then Inr (False, Some hostname)
              else (case forward_dns_lookup w hostname of
                      Inl e \<Rightarrow> Inl e
                    | Inr forward_ips \<Rightarrow>
                        if ip \<in> set forward_ips then Inr (True, Some hostname)
                        else Inr (False, Some hostname)))"

subsection \<open>Range cache\<close>

text \<open>\<open>d.get(k)\<close> on a decoded JSON object: \<open>None\<close> (here \<open>JNull\<close>) when the key is absent.\<close>

definition dict_get :: "(string \<times> json) list \<Rightarrow> string \<Rightarrow> json" where
  "dict_get kvs k = (case map_of kvs k of None \<Rightarrow> JNull | Some v \<Rightarrow> v)"

text \<open>Python's \<open>a or b\<close>.\<close>

definition py_or :: "json \<Rightarrow> json \<Rightarrow> json" where
  "py_or a b = (if truthy a then a else b)"

text \<open>
  What a \<open>for\<close> loop over a decoded JSON value iterates: the elements of a list, the
  characters of a string, the keys of an object; anything else is not iterable.
\<close>

fun iter_json :: "json \<Rightarrow> exn + json list" where
  "iter_json (JArr xs) = Inr xs"
| "iter_json (JStr s) = Inr (map (\<lambda>c. JStr [c]) s)"
| "iter_json (JObj kvs) = Inr (map (\<lambda>kv. JStr (fst kv)) kvs)"
| "iter_json _ = Inl TypeError"

text \<open>
  The loop that builds \<open>ranges\<close>: \<open>prefix_entry.get\<close> exists on an object only, so any
  other entry raises \<open>AttributeError\<close>.
\<close>

fun collect_prefixes :: "json list \<Rightarrow> json list \<Rightarrow> exn + json list" where
  "collect_prefixes [] ranges = Inr ranges"
| "collect_prefixes (JObj kvs # rest) ranges =
     (let cidr = py_or (dict_get kvs ''ipv4Prefix'') (dict_get kvs ''ipv6Prefix'')
      in collect_prefixes rest (if truthy cidr then ranges @ [cidr] else ranges))"
| "collect_prefixes (_ # rest) ranges = Inl AttributeError"

text \<open>The body of the \<open>try\<close> block up to the cache update, given the decoded document.\<close>

definition parse_prefixes :: "json \<Rightarrow> exn + json list" where
  "parse_prefixes data =
    (case data of
       JObj kvs \<Rightarrow>
         (case iter_json (case map_of kvs ''prefixes'' of None \<Rightarrow> JArr [] | Some v \<Rightarrow> v) of
            Inl e \<Rightarrow> Inl e
          | Inr entries \<Rightarrow> collect_prefixes entries [])
     | _ \<Rightarrow> Inl AttributeError)"

definition ip_range_source :: "string \<Rightarrow> string option" where
  "ip_range_source crawler_key =
    (case map_of CRAWLER_IP_RANGE_SOURCES crawler_key of
       None \<Rightarrow> None
     | Some None \<Rightarrow> None
     | Some (Some url) \<Rightarrow> if url = [] then None else Some url)"

text \<open>The body of the \<open>try\<close> block: fetch, decode, collect; any exception is a value.\<close>

definition download_ranges :: "('a, 'n) world \<Rightarrow> string \<Rightarrow> exn + json list" where
  "download_ranges w source_url =
    (case urlopen_json w source_url of
       Inl e \<Rightarrow> Inl e
     | Inr data \<Rightarrow> parse_prefixes data)"

text \<open>The cache test at the head of \<open>fetch_ip_ranges\<close>: an entry younger than the TTL.\<close>

definition cache_hit :: "state \<Rightarrow> real \<Rightarrow> string \<Rightarrow> json list option" where
  "cache_hit s now crawler_key =
    (case ip_range_cache s crawler_key of
       None \<Rightarrow> None
     | Some (ranges, cached_at) \<Rightarrow>
         if now - cached_at < IP_RANGE_CACHE_TTL then Some ranges else None)"

text \<open>
  \<open>fetch_ip_ranges\<close>: serve a cache entry younger than the TTL; otherwise fetch, and
  on any exception of the fetch return the empty list (\<open>except Exception\<close>).
\<close>

definition fetch_ip_ranges ::
  "('a, 'n) world \<Rightarrow> state \<Rightarrow> string \<Rightarrow> json list \<times> state" where
  "fetch_ip_ranges w s crawler_key =
    (let now = clock w
     in (case cache_hit s now crawler_key of
           Some ranges \<Rightarrow> (ranges, s)
         | None \<Rightarrow>
             (case ip_range_source crawler_key of
                None \<Rightarrow> ([], s)
              | Some source_url \<Rightarrow>
                  (let s1 = s\<lparr>net_calls := net_calls s @ [source_url]\<rparr>
                   in (case download_ranges w source_url of
                         Inr ranges \<Rightarrow>
                           (ranges,
                            s1\<lparr>ip_range_cache :=
                                 fun_upd (ip_range_cache s1) crawler_key (Some (ranges, now))\<rparr>)
                       | Inl e \<Rightarrow> ([], s1))))))"

subsection \<open>Range matcher\<close>

text \<open>The inner loop of \<open>verify_ip_range\<close>: an entry that does not parse is skipped.\<close>

fun in_some_network :: "('a, 'n) world \<Rightarrow> 'a \<Rightarrow> json list \<Rightarrow> bool" where
  "in_some_network w ip_obj [] = False"
| "in_some_network w ip_obj (cidr # rest) =
     (case ip_network_parse w cidr of
        Some network \<Rightarrow>
          if net_contains w network ip_obj then True else in_some_network w ip_obj rest
      | None \<Rightarrow> in_some_network w ip_obj rest)"

definition verify_ip_range ::
  "('a, 'n) world \<Rightarrow> state \<Rightarrow> string \<Rightarrow> string \<Rightarrow> bool \<times> state" where
  "verify_ip_range w s ip crawler_key =
    (let (ranges, s') = fetch_ip_ranges w s crawler_key
     in if ranges = [] then (False, s')
        else (case ip_address_parse w ip of
                None \<Rightarrow> (False, s')
              | Some ip_obj \<Rightarrow> (in_some_network w ip_obj ranges, s')))"

subsection \<open>Verdict\<close>

text \<open>
  The final-verdict block of \<open>is_verified_crawler\<close>, from \<open>if require_both_checks\<close> to the
  last \<open>reason\<close>, as a function of the flag, the classified key and the two sub-checks.
\<close>

definition final_verdict :: "bool \<Rightarrow> string \<Rightarrow> bool \<Rightarrow> bool \<Rightarrow> bool \<times> string" where
  "final_verdict require_both_checks crawler rdns_ok range_ok =
    (if require_both_checks then
       (let has_ip_ranges = (ip_range_source crawler \<noteq> None)
        in if has_ip_ranges then
             (let legit = (rdns_ok \<and> range_ok)
              in (legit, if legit then ''Verified via rDNS and IP range''
                         else ''Failed one or both verification checks''))
           else
             (let legit = rdns_ok
              in (legit, if legit
                         then ''Verified via rDNS (no published IP ranges for '' @ crawler @ '')''
                         else ''rDNS verification failed'')))
     else
       (rdns_ok \<or> range_ok,
        if rdns_ok \<and> range_ok then ''Verified via rDNS and IP range''
        else if rdns_ok then ''Verified via rDNS''
        else if range_ok then ''Verified via IP range''
        else ''Impersonation detected: claims to be '' @ crawler @ '' but verification failed''))"

definition unknown_result :: "string \<Rightarrow> string \<Rightarrow> CrawlerVerificationResult" where
  "unknown_result ip ua =
    \<lparr>ip_address = ip, user_agent = ua, claimed_crawler = None, rdns_hostname = None,
     rdns_verified = False, ip_range_verified = False, is_legitimate = False,
     reason = ''User-Agent does not claim to be a known search crawler''\<rparr>"

text \<open>
  \<open>is_verified_crawler\<close> returns the result and the state after the call, or the
  exception that leaves it. \<open>not claimed_crawler\<close> holds for \<open>None\<close> and the empty string.
\<close>

definition is_verified_crawler ::
  "('a, 'n) world \<Rightarrow> state \<Rightarrow> string \<Rightarrow> string \<Rightarrow> bool
     \<Rightarrow> exn + (CrawlerVerificationResult \<times> state)" where
  "is_verified_crawler w s ip ua require_both_checks =
    (case extract_crawler_identity ua of
       None \<Rightarrow> Inr (unknown_result ip ua, s)
     | Some crawler \<Rightarrow>
         if crawler = [] then Inr (unknown_result ip ua, s)
         else (case verify_rdns w ip crawler of
                 Inl e \<Rightarrow> Inl e
               | Inr (rdns_ok, hostname) \<Rightarrow>
                   let (range_ok, s') = verify_ip_range w s ip crawler;
                       (legit, why) = final_verdict require_both_checks crawler rdns_ok range_ok
                   in Inr (\<lparr>ip_address = ip, user_agent = ua, claimed_crawler = Some crawler,
                            rdns_hostname = hostname, rdns_verified = rdns_ok,
                            ip_range_verified = range_ok, is_legitimate = legit,
                            reason = why\<rparr>, s')))"

section \<open>A sample world\<close>

text \<open>
  A concrete world for the examples below. Its address functions are a stand-in for the
  \<open>ipaddress\<close> module restricted to dotted-quad IPv4: an address is its 32-bit value, a
  network is its first address and its size, and \<open>strict=False\<close> clears the host bits.
  The general theorems do not depend on it: they hold for every world.
\<close>

definition digit_val :: "char \<Rightarrow> nat option" where
  "digit_val c = map_of (zip ''0123456789'' [0, 1, 2, 3, 4, 5, 6, 7, 8, 9]) c"

fun parse_nat :: "nat \<Rightarrow> string \<Rightarrow> nat option" where
  "parse_nat acc [] = Some acc"
| "parse_nat acc (c # cs) =
     (case digit_val c of None \<Rightarrow> None | Some d \<Rightarrow> parse_nat (10 * acc + d) cs)"

definition parse_decimal :: "string \<Rightarrow> nat option" where
  "parse_decimal s = (if s = [] then None else parse_nat 0 s)"

fun split_on :: "char \<Rightarrow> string \<Rightarrow> string \<Rightarrow> string list" where
  "split_on sep cur [] = [rev cur]"
| "split_on sep cur (c # cs) =
     (if c = sep then rev cur # split_on sep [] cs else split_on sep (c # cur) cs)"

definition parse_ipv4 :: "string \<Rightarrow> nat option" where
  "parse_ipv4 s =
    (case map parse_decimal (split_on CHR ''.'' [] s) of
       [Some a, Some b, Some c, Some d] \<Rightarrow>
         if a < 256 \<and> b < 256 \<and> c < 256 \<and> d < 256
         then Some (((a * 256 + b) * 256 + c) * 256 + d) else None
     | _ \<Rightarrow> None)"

definition parse_ipv4_network :: "json \<Rightarrow> (nat \<times> nat) option" where
  "parse_ipv4_network j =
    (case j of
       JStr s \<Rightarrow>
         (case split_on CHR ''/'' [] s of
            [a] \<Rightarrow> (case parse_ipv4 a of None \<Rightarrow> None | Some v \<Rightarrow> Some (v, 1))
          | [a, l] \<Rightarrow>
              (case (parse_ipv4 a, parse_decimal l) of
                 (Some v, Some n) \<Rightarrow>
                   if n \<le> 32 then Some (v - v mod 2 ^ (32 - n), 2 ^ (32 - n)) else None
               | _ \<Rightarrow> None)
          | _ \<Rightarrow> None)
     | _ \<Rightarrow> None)"

definition ipv4_in_network :: "nat \<times> nat \<Rightarrow> nat \<Rightarrow> bool" where
  "ipv4_in_network n a = (fst n \<le> a \<and> a < fst n + snd n)"

text \<open>A published document with one malformed and one valid prefix.\<close>

definition sample_json :: json where
  "sample_json =
    JObj [(''creationTime'', JStr ''2024-01-01''),
          (''prefixes'', JArr [JObj [(''ipv4Prefix'', JStr ''not-a-cidr'')],
                               JObj [(''ipv4Prefix'', JStr ''66.249.64.0/19'')]])]"

text \<open>
  The resolver of the sample world: 66.249.66.1 and 157.55.39.1 have consistent reverse
  and forward records; 5.9.0.1 has a forged reverse record naming the host of
  66.249.66.1; nothing else resolves. The clock reads 1000 and every fetch returns
  \<open>sample_json\<close>.
\<close>

definition sample_ptr :: "(string \<times> string) list" where
  "sample_ptr =
    [(''66.249.66.1'', ''crawl-66-249-66-1.googlebot.com''),
     (''5.9.0.1'', ''crawl-66-249-66-1.googlebot.com''),
     (''157.55.39.1'', ''msnbot-157-55-39-1.search.msn.com'')]"

definition sample_addr :: "(string \<times> string list) list" where
  "sample_addr =
    [(''crawl-66-249-66-1.googlebot.com'', [''66.249.66.1'']),
     (''msnbot-157-55-39-1.search.msn.com'', [''157.55.39.1''])]"

definition sample_world :: "(nat, nat \<times> nat) world" where
  "sample_world =
    \<lparr>clock = 1000,
     gethostbyaddr = (\<lambda>ip. case map_of sample_ptr ip of
                             Some h \<Rightarrow> Inr h | None \<Rightarrow> Inl Herror),
     getaddrinfo = (\<lambda>h. case map_of sample_addr h of
                           Some ips \<Rightarrow> Inr ips | None \<Rightarrow> Inl Gaierror),
     urlopen_json = (\<lambda>url. Inr sample_json),
     ip_address_parse = parse_ipv4,
     ip_network_parse = parse_ipv4_network,
     net_contains = ipv4_in_network\<rparr>"

text \<open>The sample world five hours later, with every fetch failing.\<close>

definition offline_world :: "(nat, nat \<times> nat) world" where
  "offline_world = sample_world\<lparr>clock := 19000, urlopen_json := (\<lambda>url. Inl URLError)\<rparr>"

text \<open>
  CPython encodes the argument of \<open>socket.gethostbyaddr\<close> with the \<open>idna\<close> codec before
  any lookup, and the codec raises \<open>UnicodeError\<close> for an empty label, as in
  \<open>1..2\<close>. The sample world with that behaviour:
\<close>

definition idna_world :: "(nat, nat \<times> nat) world" where
  "idna_world =
    sample_world\<lparr>gethostbyaddr :=
      (\<lambda>ip. if ip = ''1..2'' then Inl UnicodeError else gethostbyaddr sample_world ip)\<rparr>"

definition empty_state :: state where
  "empty_state = \<lparr>ip_range_cache = Map.empty, net_calls = []\<rparr>"

text \<open>The state after a successful fetch for \<open>googlebot\<close> at time 1000.\<close>

definition cached_state :: state where
  "cached_state =
    \<lparr>ip_range_cache = fun_upd Map.empty ''googlebot''
        (Some ([JStr ''not-a-cidr'', JStr ''66.249.64.0/19''], 1000)),
     net_calls = [''https://developers.google.com/search/apis/ipranges/googlebot.json'']\<rparr>"

section \<open>Properties\<close>

subsection \<open>Classifier and pattern table\<close>

lemmas eval_str = lower_def lower_char_def startswith_def
lemmas eval_ip = parse_ipv4_network_def parse_ipv4_def parse_decimal_def digit_val_def
  ipv4_in_network_def

lemma first_fragment_in_table:
  "first_fragment tbl u = Some k \<Longrightarrow> k \<in> snd ` set tbl"
  by (induction tbl u rule: first_fragment.induct) (auto split: if_splits)

lemma extract_cases:
  assumes "extract_crawler_identity ua = Some k"
  shows "k = ''googlebot'' \<or> k = ''bingbot'' \<or> k = ''applebot'' \<or> k = ''yandexbot''
         \<or> k = ''duckduckbot'' \<or> k = ''baiduspider''"
proof -
  have "k \<in> snd ` set UA_TO_CRAWLER_KEY"
    using assms unfolding extract_crawler_identity_def by (rule first_fragment_in_table)
  then show ?thesis by (simp add: UA_TO_CRAWLER_KEY_def)
qed

lemma extract_nonempty: "extract_crawler_identity ua = Some k \<Longrightarrow> k \<noteq> []"
  by (drule extract_cases) (elim disjE; simp)

lemma patterns_googlebot: "rdns_patterns ''googlebot'' =
    [[Chars ''googlebot.com'', EndAnchor], [Chars ''google.com'', EndAnchor]]"
  by (simp add: rdns_patterns_def CRAWLER_RDNS_PATTERNS_def)

lemma extract_googlebot: "extract_crawler_identity ''Googlebot/2.1'' = Some ''googlebot''"
  by (simp add: extract_crawler_identity_def UA_TO_CRAWLER_KEY_def eval_str)

lemma extract_curl: "extract_crawler_identity ''curl/8.4.0'' = None"
  by (simp add: extract_crawler_identity_def UA_TO_CRAWLER_KEY_def eval_str)

lemma patterns_nonempty:
  assumes "k = ''googlebot'' \<or> k = ''bingbot'' \<or> k = ''applebot'' \<or> k = ''yandexbot''
         \<or> k = ''duckduckbot'' \<or> k = ''baiduspider''"
  shows "rdns_patterns k \<noteq> []"
  using assms by (elim disjE) (simp_all add: rdns_patterns_def CRAWLER_RDNS_PATTERNS_def)

text \<open>
  C10. Every identity key of the fragment table, hence every key the classifier can
  return, has a non-empty list of reverse-DNS patterns in the pattern table.
\<close>

theorem C10_classified_key_has_patterns:
  "(\<forall>k \<in> snd ` set UA_TO_CRAWLER_KEY. rdns_patterns k \<noteq> [])
   \<and> (\<forall>ua k. extract_crawler_identity ua = Some k \<longrightarrow> rdns_patterns k \<noteq> [])"
proof (rule conjI)
  show "\<forall>k \<in> snd ` set UA_TO_CRAWLER_KEY. rdns_patterns k \<noteq> []"
  proof
    fix k assume "k \<in> snd ` set UA_TO_CRAWLER_KEY"
    then have "k = ''googlebot'' \<or> k = ''bingbot'' \<or> k = ''applebot'' \<or> k = ''yandexbot''
         \<or> k = ''duckduckbot'' \<or> k = ''baiduspider''"
      by (simp add: UA_TO_CRAWLER_KEY_def)
    then show "rdns_patterns k \<noteq> []" by (rule patterns_nonempty)
  qed
next
  show "\<forall>ua k. extract_crawler_identity ua = Some k \<longrightarrow> rdns_patterns k \<noteq> []"
  proof (intro allI impI)
    fix ua k assume "extract_crawler_identity ua = Some k"
    then show "rdns_patterns k \<noteq> []" by (rule patterns_nonempty [OF extract_cases])
  qed
qed

theorem C10_witness:
  "''bingbot'' \<in> snd ` set UA_TO_CRAWLER_KEY \<and> rdns_patterns ''bingbot'' \<noteq> []
   \<and> extract_crawler_identity ''Googlebot/2.1'' = Some ''googlebot''
   \<and> rdns_patterns ''googlebot'' \<noteq> []"
proof -
  have m: "''bingbot'' \<in> snd ` set UA_TO_CRAWLER_KEY"
    by (simp add: UA_TO_CRAWLER_KEY_def)
  have a: "rdns_patterns ''bingbot'' \<noteq> []"
    using C10_classified_key_has_patterns m by (rule conjunct1 [THEN bspec])
  have "\<forall>ua k. extract_crawler_identity ua = Some k \<longrightarrow> rdns_patterns k \<noteq> []"
    using C10_classified_key_has_patterns by (rule conjunct2)
  then have b: "rdns_patterns ''googlebot'' \<noteq> []"
    using extract_googlebot by simp
  show ?thesis using m a b extract_googlebot by (intro conjI)
qed

text \<open>
  C6. For every source address and every declared agent that does not classify to a
  known identity, the call returns a result with verdict false and the dedicated
  justification, whatever the address, the flag, the world and the cache are; the
  cache is left as it was.
\<close>

theorem C6_unrecognized_agent:
  assumes "extract_crawler_identity ua = None"
  shows "is_verified_crawler w s ip ua require_both_checks =
     Inr (\<lparr>ip_address = ip, user_agent = ua, claimed_crawler = None, rdns_hostname = None,
           rdns_verified = False, ip_range_verified = False, is_legitimate = False,
           reason = ''User-Agent does not claim to be a known search crawler''\<rparr>, s)"
  using assms by (simp add: is_verified_crawler_def unknown_result_def)

theorem C6_witness:
  "extract_crawler_identity ''curl/8.4.0'' = None \<and>
   is_verified_crawler sample_world empty_state ''66.249.66.1'' ''curl/8.4.0'' True =
     Inr (\<lparr>ip_address = ''66.249.66.1'', user_agent = ''curl/8.4.0'', claimed_crawler = None,
           rdns_hostname = None, rdns_verified = False, ip_range_verified = False,
           is_legitimate = False,
           reason = ''User-Agent does not claim to be a known search crawler''\<rparr>, empty_state)"
  using extract_curl C6_unrecognized_agent [OF extract_curl] by simp

subsection \<open>Evaluation in the sample world\<close>

lemma source_googlebot: "ip_range_source ''googlebot'' =
    Some ''https://developers.google.com/search/apis/ipranges/googlebot.json''"
  by (simp add: ip_range_source_def CRAWLER_IP_RANGE_SOURCES_def)

lemma source_bingbot: "ip_range_source ''bingbot'' = None"
  by (simp add: ip_range_source_def CRAWLER_IP_RANGE_SOURCES_def)

lemma parse_sample_json:
  "parse_prefixes sample_json = Inr [JStr ''not-a-cidr'', JStr ''66.249.64.0/19'']"
  by (simp add: parse_prefixes_def sample_json_def dict_get_def py_or_def)

lemma rx_match_imp_search: "rx_match p s \<Longrightarrow> re_search p s"
  by (cases s) simp_all

lemma re_search_append: "rx_match p s \<Longrightarrow> re_search p (t @ s)"
  by (induction t) (simp_all add: rx_match_imp_search)

lemma googlebot_host_matches:
  "list_ex (\<lambda>p. re_search p ''crawl-66-249-66-1.googlebot.com'') (rdns_patterns ''googlebot'')"
proof -
  have "rx_match [Chars ''googlebot.com'', EndAnchor] ''googlebot.com''"
    by (simp add: eval_str)
  then have "re_search [Chars ''googlebot.com'', EndAnchor]
      (''crawl-66-249-66-1.'' @ ''googlebot.com'')"
    by (rule re_search_append)
  then show ?thesis by (simp add: patterns_googlebot)
qed

lemma rdns_sample_ok:
  "verify_rdns sample_world ''66.249.66.1'' ''googlebot'' =
     Inr (True, Some ''crawl-66-249-66-1.googlebot.com'')"
  using googlebot_host_matches
  by (simp add: verify_rdns_def reverse_dns_lookup_def forward_dns_lookup_def sample_world_def sample_ptr_def sample_addr_def)

lemma fetch_sample:
  "fetch_ip_ranges sample_world empty_state ''googlebot'' =
     ([JStr ''not-a-cidr'', JStr ''66.249.64.0/19''],
      cached_state)"
  by (simp add: fetch_ip_ranges_def cache_hit_def empty_state_def cached_state_def
      source_googlebot download_ranges_def parse_sample_json sample_world_def)

subsection \<open>Dual-DNS verifier\<close>

lemma no_match_on_empty:
  assumes "extract_crawler_identity ua = Some k"
  shows "\<not> list_ex (\<lambda>p. re_search p []) (rdns_patterns k)"
  using extract_cases [OF assms]
  by (elim disjE) (simp_all add: rdns_patterns_def CRAWLER_RDNS_PATTERNS_def eval_str)

text \<open>
  C1. For every source address and every declared agent that classifies to a known
  identity: if the reverse lookup of the address yields a host name matching one of the
  identity's patterns, and the forward lookup of that name yields addresses that do not
  contain the source address, then \<open>verify_rdns\<close> returns not verified, together with
  the resolved host name.
\<close>

theorem C1_forged_reverse_record:
  assumes "extract_crawler_identity ua = Some k"
    and "gethostbyaddr w ip = Inr h"
    and "list_ex (\<lambda>p. re_search p h) (rdns_patterns k)"
    and "forward_dns_lookup w h = Inr ips"
    and "ip \<notin> set ips"
  shows "verify_rdns w ip k = Inr (False, Some h)"
proof -
  have "h \<noteq> []"
    using no_match_on_empty [OF assms(1)] assms(3) by auto
  then show ?thesis
    using assms(2-5) by (simp add: verify_rdns_def reverse_dns_lookup_def)
qed

theorem C1_witness:
  "extract_crawler_identity ''Googlebot/2.1'' = Some ''googlebot''
   \<and> gethostbyaddr sample_world ''5.9.0.1'' = Inr ''crawl-66-249-66-1.googlebot.com''
   \<and> list_ex (\<lambda>p. re_search p ''crawl-66-249-66-1.googlebot.com'')
        (rdns_patterns ''googlebot'')
   \<and> forward_dns_lookup sample_world ''crawl-66-249-66-1.googlebot.com'' = Inr [''66.249.66.1'']
   \<and> ''5.9.0.1'' \<notin> set [''66.249.66.1'']
   \<and> verify_rdns sample_world ''5.9.0.1'' ''googlebot'' =
        Inr (False, Some ''crawl-66-249-66-1.googlebot.com'')"
proof -
  have r: "gethostbyaddr sample_world ''5.9.0.1'' = Inr ''crawl-66-249-66-1.googlebot.com''"
    by (simp add: sample_world_def sample_ptr_def)
  have f: "forward_dns_lookup sample_world ''crawl-66-249-66-1.googlebot.com'' =
      Inr [''66.249.66.1'']"
    by (simp add: forward_dns_lookup_def sample_world_def sample_ptr_def sample_addr_def)
  have n: "''5.9.0.1'' \<notin> set [''66.249.66.1'']" by simp
  show ?thesis
    using extract_googlebot r googlebot_host_matches f n
      C1_forged_reverse_record [OF extract_googlebot r googlebot_host_matches f n]
    by (intro conjI)
qed

subsection \<open>Verdict\<close>

lemma is_verified_crawler_classified:
  assumes "extract_crawler_identity ua = Some k"
    and "verify_rdns w ip k = Inr (d, h)"
    and "verify_ip_range w s ip k = (g, s')"
  shows "is_verified_crawler w s ip ua rb =
     Inr (\<lparr>ip_address = ip, user_agent = ua, claimed_crawler = Some k, rdns_hostname = h,
           rdns_verified = d, ip_range_verified = g,
           is_legitimate = fst (final_verdict rb k d g),
           reason = snd (final_verdict rb k d g)\<rparr>, s')"
  using assms extract_nonempty [OF assms(1)]
  by (simp add: is_verified_crawler_def split_beta)

lemma verdict_require_both:
  "fst (final_verdict True k d g) = (if ip_range_source k \<noteq> None then d \<and> g else d)"
  by (simp add: final_verdict_def Let_def)

lemma verdict_default: "fst (final_verdict False k d g) = (d \<or> g)"
  by (simp add: final_verdict_def)

text \<open>
  C2. For every request whose declared agent classifies to a known identity, with
  \<open>require_both_checks\<close> set: the call returns a result whose two sub-check fields are
  the outcomes of the DNS check and of the range check, and whose verdict is their
  conjunction when the identity has a configured range source, and the DNS check alone
  when it has none.
\<close>

theorem C2_require_both_policy:
  assumes "extract_crawler_identity ua = Some k"
    and "verify_rdns w ip k = Inr (d, h)"
    and "verify_ip_range w s ip k = (g, s')"
  shows "\<exists>r. is_verified_crawler w s ip ua True = Inr (r, s')
           \<and> rdns_verified r = d \<and> ip_range_verified r = g
           \<and> is_legitimate r = (if ip_range_source k \<noteq> None then d \<and> g else d)"
  using is_verified_crawler_classified [OF assms, of True] verdict_require_both [of k d g]
  by simp

text \<open>
  C3. For every request whose declared agent classifies to a known identity, with
  \<open>require_both_checks\<close> unset (the default): the verdict is true iff the DNS check or
  the range check is true.
\<close>

theorem C3_default_policy:
  assumes "extract_crawler_identity ua = Some k"
    and "verify_rdns w ip k = Inr (d, h)"
    and "verify_ip_range w s ip k = (g, s')"
  shows "\<exists>r. is_verified_crawler w s ip ua False = Inr (r, s')
           \<and> rdns_verified r = d \<and> ip_range_verified r = g
           \<and> is_legitimate r = (d \<or> g)"
  using is_verified_crawler_classified [OF assms, of False] verdict_default [of k d g]
  by simp

lemma extract_bingbot: "extract_crawler_identity ''bingbot/2.0'' = Some ''bingbot''"
  by (simp add: extract_crawler_identity_def UA_TO_CRAWLER_KEY_def eval_str)

lemma patterns_bingbot: "rdns_patterns ''bingbot'' = [[Chars ''search.msn.com'', EndAnchor]]"
  by (simp add: rdns_patterns_def CRAWLER_RDNS_PATTERNS_def)

lemma rdns_bing_ok:
  "verify_rdns sample_world ''157.55.39.1'' ''bingbot'' =
     Inr (True, Some ''msnbot-157-55-39-1.search.msn.com'')"
proof -
  have "rx_match [Chars ''search.msn.com'', EndAnchor] ''search.msn.com''"
    by (simp add: eval_str)
  then have "re_search [Chars ''search.msn.com'', EndAnchor]
      (''msnbot-157-55-39-1.'' @ ''search.msn.com'')"
    by (rule re_search_append)
  then have "list_ex (\<lambda>p. re_search p ''msnbot-157-55-39-1.search.msn.com'')
      (rdns_patterns ''bingbot'')"
    by (simp add: patterns_bingbot)
  then show ?thesis
    by (simp add: verify_rdns_def reverse_dns_lookup_def forward_dns_lookup_def
        sample_world_def sample_ptr_def sample_addr_def)
qed

lemma range_bing_none:
  "verify_ip_range sample_world empty_state ''157.55.39.1'' ''bingbot'' = (False, empty_state)"
  by (simp add: verify_ip_range_def fetch_ip_ranges_def cache_hit_def empty_state_def
      source_bingbot)

lemma rdns_sample_none:
  "verify_rdns sample_world ''66.249.66.2'' ''googlebot'' = Inr (False, None)"
  by (simp add: verify_rdns_def reverse_dns_lookup_def sample_world_def sample_ptr_def)

lemma range_sample_ok2:
  "verify_ip_range sample_world empty_state ''66.249.66.2'' ''googlebot'' = (True, cached_state)"
  by (simp add: verify_ip_range_def fetch_sample) (simp add: sample_world_def eval_ip)

lemma range_sample_ok1:
  "verify_ip_range sample_world empty_state ''66.249.66.1'' ''googlebot'' = (True, cached_state)"
  by (simp add: verify_ip_range_def fetch_sample) (simp add: sample_world_def eval_ip)

theorem C2_witness:
  "(\<exists>r. is_verified_crawler sample_world empty_state ''66.249.66.1'' ''Googlebot/2.1'' True
          = Inr (r, cached_state)
        \<and> rdns_verified r \<and> ip_range_verified r \<and> is_legitimate r)
   \<and> (\<exists>r. is_verified_crawler sample_world empty_state ''66.249.66.2'' ''Googlebot/2.1'' True
          = Inr (r, cached_state)
        \<and> \<not> rdns_verified r \<and> ip_range_verified r \<and> \<not> is_legitimate r)
   \<and> (\<exists>r. is_verified_crawler sample_world empty_state ''157.55.39.1'' ''bingbot/2.0'' True
          = Inr (r, empty_state)
        \<and> rdns_verified r \<and> \<not> ip_range_verified r \<and> is_legitimate r)"
  using C2_require_both_policy [OF extract_googlebot rdns_sample_ok range_sample_ok1]
    C2_require_both_policy [OF extract_googlebot rdns_sample_none range_sample_ok2]
    C2_require_both_policy [OF extract_bingbot rdns_bing_ok range_bing_none]
  by (simp add: source_googlebot source_bingbot)

theorem C3_witness:
  "(\<exists>r. is_verified_crawler sample_world empty_state ''66.249.66.2'' ''Googlebot/2.1'' False
          = Inr (r, cached_state)
        \<and> \<not> rdns_verified r \<and> ip_range_verified r \<and> is_legitimate r)
   \<and> (\<exists>r. is_verified_crawler sample_world empty_state ''157.55.39.1'' ''bingbot/2.0'' False
          = Inr (r, empty_state)
        \<and> rdns_verified r \<and> \<not> ip_range_verified r \<and> is_legitimate r)"
  using C3_default_policy [OF extract_googlebot rdns_sample_none range_sample_ok2]
    C3_default_policy [OF extract_bingbot rdns_bing_ok range_bing_none]
  by simp

subsection \<open>Justification text\<close>

lemma default_reason_cases:
  "snd (final_verdict False k d g) =
     (if d \<and> g then ''Verified via rDNS and IP range''
      else if d then ''Verified via rDNS''
      else if g then ''Verified via IP range''
      else ''Impersonation detected: claims to be '' @ k @ '' but verification failed'')"
  by (simp add: final_verdict_def)

lemma default_reason_inj:
  assumes "snd (final_verdict False k d g) = snd (final_verdict False k' d' g')"
  shows "d = d' \<and> g = g'"
  using assms unfolding default_reason_cases
  by (cases d; cases g; cases d'; cases g'; simp)

lemma strict_reason_cases:
  "snd (final_verdict True k d g) =
     (if ip_range_source k \<noteq> None
      then (if d \<and> g then ''Verified via rDNS and IP range''
            else ''Failed one or both verification checks'')
      else (if d then ''Verified via rDNS (no published IP ranges for '' @ k @ '')''
            else ''rDNS verification failed''))"
  by (simp add: final_verdict_def Let_def)

lemma strict_reason_verdict:
  assumes "snd (final_verdict True k d g) = snd (final_verdict True k' d' g')"
  shows "fst (final_verdict True k d g) = fst (final_verdict True k' d' g')"
  using assms unfolding strict_reason_cases verdict_require_both
  by (cases "ip_range_source k = None"; cases "ip_range_source k' = None";
      cases d; cases g; cases d'; cases g'; simp)

text \<open>
  C5 does not hold as stated. With \<open>require_both_checks\<close> set, an identity with a range
  source gets the same justification when only the DNS check passed, when only the
  range check passed and when neither passed; an identity without a range source gets
  the same justification whether or not the range check passed.
\<close>

theorem C5_counterexample:
  "ip_range_source ''googlebot'' \<noteq> None
   \<and> snd (final_verdict True ''googlebot'' True False)
       = snd (final_verdict True ''googlebot'' False True)
   \<and> snd (final_verdict True ''googlebot'' False True)
       = snd (final_verdict True ''googlebot'' False False)
   \<and> ip_range_source ''bingbot'' = None
   \<and> snd (final_verdict True ''bingbot'' True True)
       = snd (final_verdict True ''bingbot'' True False)"
  by (simp add: strict_reason_cases source_googlebot source_bingbot)

lemma is_verified_crawler_raises:
  assumes "extract_crawler_identity ua = Some k"
    and "verify_rdns w ip k = Inl e"
  shows "is_verified_crawler w s ip ua rb = Inl e"
  using assms extract_nonempty [OF assms(1)]
  by (simp add: is_verified_crawler_def)

lemma is_verified_crawler_returns:
  assumes "extract_crawler_identity ua = Some k"
    and "is_verified_crawler w s ip ua rb = Inr (r, t)"
  shows "\<exists>d g. rdns_verified r = d \<and> ip_range_verified r = g
           \<and> is_legitimate r = fst (final_verdict rb k d g)
           \<and> reason r = snd (final_verdict rb k d g)"
proof (cases "verify_rdns w ip k")
  case (Inl e)
  then show ?thesis
    using is_verified_crawler_raises [OF assms(1) Inl, of s rb] assms(2) by simp
next
  case (Inr p)
  obtain d h where p: "p = (d, h)" by (cases p)
  obtain g u where q: "verify_ip_range w s ip k = (g, u)"
    by (cases "verify_ip_range w s ip k")
  have v: "verify_rdns w ip k = Inr (d, h)" using Inr p by simp
  show ?thesis
    using is_verified_crawler_classified [OF assms(1) v q, of rb] assms(2) by auto
qed

text \<open>
  C5, amended. For any two results returned for classified agents under the same policy
  mode and carrying the same justification: in the default mode the two results agree
  on the DNS check and on the range check, so the outcome category (both, DNS only,
  range only, neither) can be recovered from the justification; with
  \<open>require_both_checks\<close> set they agree on the final verdict, which is what the
  justification then tells.
\<close>

theorem C5_justification_categories:
  assumes "extract_crawler_identity ua1 = Some k1"
    and "extract_crawler_identity ua2 = Some k2"
    and "is_verified_crawler w1 s1 ip1 ua1 rb = Inr (r1, t1)"
    and "is_verified_crawler w2 s2 ip2 ua2 rb = Inr (r2, t2)"
    and "reason r1 = reason r2"
  shows "if rb then is_legitimate r1 = is_legitimate r2
         else rdns_verified r1 = rdns_verified r2
              \<and> ip_range_verified r1 = ip_range_verified r2"
proof -
  obtain d1 g1 where e1: "rdns_verified r1 = d1" "ip_range_verified r1 = g1"
      "is_legitimate r1 = fst (final_verdict rb k1 d1 g1)"
      "reason r1 = snd (final_verdict rb k1 d1 g1)"
    using is_verified_crawler_returns [OF assms(1,3)] by blast
  obtain d2 g2 where e2: "rdns_verified r2 = d2" "ip_range_verified r2 = g2"
      "is_legitimate r2 = fst (final_verdict rb k2 d2 g2)"
      "reason r2 = snd (final_verdict rb k2 d2 g2)"
    using is_verified_crawler_returns [OF assms(2,4)] by blast
  have eq: "snd (final_verdict rb k1 d1 g1) = snd (final_verdict rb k2 d2 g2)"
    using assms(5) e1(4) e2(4) by simp
  show ?thesis
  proof (cases rb)
    case True
    have "snd (final_verdict True k1 d1 g1) = snd (final_verdict True k2 d2 g2)"
      using eq True by simp
    then have "fst (final_verdict True k1 d1 g1) = fst (final_verdict True k2 d2 g2)"
      by (rule strict_reason_verdict)
    then show ?thesis using True e1(3) e2(3) by simp
  next
    case False
    have "snd (final_verdict False k1 d1 g1) = snd (final_verdict False k2 d2 g2)"
      using eq False by simp
    then have "d1 = d2 \<and> g1 = g2"
      by (rule default_reason_inj)
    then show ?thesis using False e1(1,2) e2(1,2) by simp
  qed
qed

lemma rdns_sample_forged:
  "verify_rdns sample_world ''5.9.0.1'' ''googlebot'' =
     Inr (False, Some ''crawl-66-249-66-1.googlebot.com'')"
  using googlebot_host_matches
  by (simp add: verify_rdns_def reverse_dns_lookup_def forward_dns_lookup_def
      sample_world_def sample_ptr_def sample_addr_def)

lemma fetch_cached:
  "fetch_ip_ranges sample_world cached_state ''googlebot'' =
     ([JStr ''not-a-cidr'', JStr ''66.249.64.0/19''], cached_state)"
  by (simp add: fetch_ip_ranges_def cache_hit_def cached_state_def sample_world_def
      IP_RANGE_CACHE_TTL_def)

lemma range_cached_ok2:
  "verify_ip_range sample_world cached_state ''66.249.66.2'' ''googlebot'' = (True, cached_state)"
  by (simp add: verify_ip_range_def fetch_cached) (simp add: sample_world_def eval_ip)

lemma range_cached_forged:
  "verify_ip_range sample_world cached_state ''5.9.0.1'' ''googlebot'' = (False, cached_state)"
  by (simp add: verify_ip_range_def fetch_cached) (simp add: sample_world_def eval_ip)

theorem C5_witness:
  "(\<exists>r1 r2. is_verified_crawler sample_world empty_state ''66.249.66.2'' ''Googlebot/2.1'' False
               = Inr (r1, cached_state)
      \<and> is_verified_crawler sample_world cached_state ''66.249.66.2'' ''Googlebot/2.1'' False
               = Inr (r2, cached_state)
      \<and> reason r1 = reason r2
      \<and> rdns_verified r1 = rdns_verified r2 \<and> ip_range_verified r1 = ip_range_verified r2)
   \<and> (\<exists>r1 r2. is_verified_crawler sample_world empty_state ''66.249.66.2'' ''Googlebot/2.1'' True
               = Inr (r1, cached_state)
      \<and> is_verified_crawler sample_world cached_state ''5.9.0.1'' ''Googlebot/2.1'' True
               = Inr (r2, cached_state)
      \<and> reason r1 = reason r2 \<and> is_legitimate r1 = is_legitimate r2)"
proof (rule conjI)
  from is_verified_crawler_classified [OF extract_googlebot rdns_sample_none
      range_sample_ok2, of False]
  obtain r1 where c1: "is_verified_crawler sample_world empty_state ''66.249.66.2''
        ''Googlebot/2.1'' False = Inr (r1, cached_state)"
    and x1: "reason r1 = snd (final_verdict False ''googlebot'' False True)"
    by simp
  from is_verified_crawler_classified [OF extract_googlebot rdns_sample_none
      range_cached_ok2, of False]
  obtain r2 where c2: "is_verified_crawler sample_world cached_state ''66.249.66.2''
        ''Googlebot/2.1'' False = Inr (r2, cached_state)"
    and x2: "reason r2 = snd (final_verdict False ''googlebot'' False True)"
    by simp
  have e: "reason r1 = reason r2" using x1 x2 by simp
  from C5_justification_categories [OF extract_googlebot extract_googlebot c1 c2 e] c1 c2 e
  show "\<exists>r1 r2. is_verified_crawler sample_world empty_state ''66.249.66.2'' ''Googlebot/2.1'' False
               = Inr (r1, cached_state)
      \<and> is_verified_crawler sample_world cached_state ''66.249.66.2'' ''Googlebot/2.1'' False
               = Inr (r2, cached_state)
      \<and> reason r1 = reason r2
      \<and> rdns_verified r1 = rdns_verified r2 \<and> ip_range_verified r1 = ip_range_verified r2"
    by simp
next
  from is_verified_crawler_classified [OF extract_googlebot rdns_sample_none
      range_sample_ok2, of True]
  obtain r1 where c1: "is_verified_crawler sample_world empty_state ''66.249.66.2''
        ''Googlebot/2.1'' True = Inr (r1, cached_state)"
    and x1: "reason r1 = snd (final_verdict True ''googlebot'' False True)"
    by simp
  from is_verified_crawler_classified [OF extract_googlebot rdns_sample_forged
      range_cached_forged, of True]
  obtain r2 where c2: "is_verified_crawler sample_world cached_state ''5.9.0.1''
        ''Googlebot/2.1'' True = Inr (r2, cached_state)"
    and x2: "reason r2 = snd (final_verdict True ''googlebot'' False False)"
    by simp
  have e: "reason r1 = reason r2"
    using x1 x2 by (simp add: strict_reason_cases source_googlebot)
  from C5_justification_categories [OF extract_googlebot extract_googlebot c1 c2 e] c1 c2 e
  show "\<exists>r1 r2. is_verified_crawler sample_world empty_state ''66.249.66.2'' ''Googlebot/2.1'' True
               = Inr (r1, cached_state)
      \<and> is_verified_crawler sample_world cached_state ''5.9.0.1'' ''Googlebot/2.1'' True
               = Inr (r2, cached_state)
      \<and> reason r1 = reason r2 \<and> is_legitimate r1 = is_legitimate r2"
    by simp
qed

subsection \<open>Range cache\<close>

lemma fetch_hit:
  assumes "ip_range_cache s k = Some (rs, t)" and "clock w - t < IP_RANGE_CACHE_TTL"
  shows "fetch_ip_ranges w s k = (rs, s)"
  using assms by (simp add: fetch_ip_ranges_def cache_hit_def)

lemma cache_miss_iff:
  "cache_hit s now k = None \<longleftrightarrow>
     (ip_range_cache s k = None
      \<or> (\<exists>rs t. ip_range_cache s k = Some (rs, t) \<and> IP_RANGE_CACHE_TTL \<le> now - t))"
  by (auto simp: cache_hit_def split: option.splits)

lemma fetch_miss_failure:
  assumes "cache_hit s (clock w) k = None"
    and "ip_range_source k = Some url"
    and "download_ranges w url = Inl e"
  shows "fetch_ip_ranges w s k = ([], s\<lparr>net_calls := net_calls s @ [url]\<rparr>)"
  using assms by (simp add: fetch_ip_ranges_def)

lemma fetch_miss_success:
  assumes "cache_hit s (clock w) k = None"
    and "ip_range_source k = Some url"
    and "download_ranges w url = Inr rs"
  shows "fetch_ip_ranges w s k =
     (rs, s\<lparr>net_calls := net_calls s @ [url],
            ip_range_cache := fun_upd (ip_range_cache s) k (Some (rs, clock w))\<rparr>)"
  using assms by (simp add: fetch_ip_ranges_def)

lemma fetch_miss_no_source:
  assumes "cache_hit s (clock w) k = None" and "ip_range_source k = None"
  shows "fetch_ip_ranges w s k = ([], s)"
  using assms by (simp add: fetch_ip_ranges_def)

text \<open>
  C4 does not hold as stated. With a cache entry for \<open>googlebot\<close> older than the TTL and
  a fetch that fails, \<open>fetch_ip_ranges\<close> returns the empty list, not the cached ranges.
\<close>

theorem C4_counterexample:
  "ip_range_cache cached_state ''googlebot''
     = Some ([JStr ''not-a-cidr'', JStr ''66.249.64.0/19''], 1000)
   \<and> IP_RANGE_CACHE_TTL \<le> clock offline_world - 1000
   \<and> download_ranges offline_world
        ''https://developers.google.com/search/apis/ipranges/googlebot.json'' = Inl URLError
   \<and> fst (fetch_ip_ranges offline_world cached_state ''googlebot'') = []"
  by (simp add: cached_state_def offline_world_def sample_world_def IP_RANGE_CACHE_TTL_def
      download_ranges_def fetch_ip_ranges_def cache_hit_def source_googlebot)

text \<open>
  C4, amended. For every identity with a configured source whose cache entry is absent
  or older than the TTL: if the fetch fails, \<open>fetch_ip_ranges\<close> returns the empty list,
  whether or not an earlier fetch succeeded. One network call is recorded and the cache
  is left as it was, so a stale entry stays stored but is not served.
\<close>

theorem C4_failed_refetch_returns_empty:
  assumes "ip_range_cache s k = None
           \<or> (\<exists>rs t. ip_range_cache s k = Some (rs, t) \<and> IP_RANGE_CACHE_TTL \<le> clock w - t)"
    and "ip_range_source k = Some url"
    and "download_ranges w url = Inl e"
  shows "fetch_ip_ranges w s k = ([], s\<lparr>net_calls := net_calls s @ [url]\<rparr>)
         \<and> ip_range_cache (snd (fetch_ip_ranges w s k)) = ip_range_cache s"
proof -
  have "cache_hit s (clock w) k = None"
    using assms(1) by (simp add: cache_miss_iff)
  then have "fetch_ip_ranges w s k = ([], s\<lparr>net_calls := net_calls s @ [url]\<rparr>)"
    using assms(2,3) by (rule fetch_miss_failure)
  then show ?thesis by simp
qed

lemma offline_download:
  "download_ranges offline_world
     ''https://developers.google.com/search/apis/ipranges/googlebot.json'' = Inl URLError"
  by (simp add: download_ranges_def offline_world_def sample_world_def)

theorem C4_witness:
  "(\<exists>rs t. ip_range_cache cached_state ''googlebot'' = Some (rs, t)
       \<and> IP_RANGE_CACHE_TTL \<le> clock offline_world - t)
   \<and> fetch_ip_ranges offline_world cached_state ''googlebot'' =
       ([], cached_state\<lparr>net_calls := net_calls cached_state @
          [''https://developers.google.com/search/apis/ipranges/googlebot.json'']\<rparr>)
   \<and> ip_range_cache empty_state ''googlebot'' = None
   \<and> fetch_ip_ranges offline_world empty_state ''googlebot'' =
       ([], empty_state\<lparr>net_calls := net_calls empty_state @
          [''https://developers.google.com/search/apis/ipranges/googlebot.json'']\<rparr>)"
proof -
  have stale: "\<exists>rs t. ip_range_cache cached_state ''googlebot'' = Some (rs, t)
       \<and> IP_RANGE_CACHE_TTL \<le> clock offline_world - t"
    by (simp add: cached_state_def offline_world_def sample_world_def IP_RANGE_CACHE_TTL_def)
  have absent: "ip_range_cache empty_state ''googlebot'' = None"
    by (simp add: empty_state_def)
  show ?thesis
    using stale absent
      C4_failed_refetch_returns_empty [OF disjI2 [OF stale] source_googlebot offline_download]
      C4_failed_refetch_returns_empty [OF disjI1 [OF absent] source_googlebot offline_download]
    by simp
qed

text \<open>
  C7. For every identity with a configured range source: after a call that fetched
  successfully at time \<open>clock w1\<close> (one network call, entry stamped with that time), a
  second call less than the TTL later is served from the cache and leaves the state,
  hence the list of network calls, unchanged; a call at least the TTL later issues one
  more network call and, when that fetch succeeds, returns the new ranges and stamps
  the entry with the time of that call.
\<close>

theorem C7_cache_respects_ttl:
  assumes "ip_range_source k = Some url"
    and "cache_hit s0 (clock w1) k = None"
    and "download_ranges w1 url = Inr rs1"
    and "fetch_ip_ranges w1 s0 k = (r1, s1)"
  shows "r1 = rs1 \<and> net_calls s1 = net_calls s0 @ [url]
     \<and> ip_range_cache s1 k = Some (rs1, clock w1)
     \<and> (clock w2 - clock w1 < IP_RANGE_CACHE_TTL \<longrightarrow> fetch_ip_ranges w2 s1 k = (rs1, s1))
     \<and> (IP_RANGE_CACHE_TTL \<le> clock w2 - clock w1 \<longrightarrow>
          net_calls (snd (fetch_ip_ranges w2 s1 k)) = net_calls s1 @ [url]
          \<and> (download_ranges w2 url = Inr rs2 \<longrightarrow>
                fst (fetch_ip_ranges w2 s1 k) = rs2
                \<and> ip_range_cache (snd (fetch_ip_ranges w2 s1 k)) k = Some (rs2, clock w2)))"
proof -
  have first: "fetch_ip_ranges w1 s0 k =
      (rs1, s0\<lparr>net_calls := net_calls s0 @ [url],
               ip_range_cache := fun_upd (ip_range_cache s0) k (Some (rs1, clock w1))\<rparr>)"
    using assms(2,1,3) by (rule fetch_miss_success)
  then have r1: "r1 = rs1"
    and s1: "s1 = s0\<lparr>net_calls := net_calls s0 @ [url],
               ip_range_cache := fun_upd (ip_range_cache s0) k (Some (rs1, clock w1))\<rparr>"
    using assms(4) by simp_all
  have calls: "net_calls s1 = net_calls s0 @ [url]" by (simp add: s1)
  have entry: "ip_range_cache s1 k = Some (rs1, clock w1)" by (simp add: s1)
  have fresh: "fetch_ip_ranges w2 s1 k = (rs1, s1)"
    if "clock w2 - clock w1 < IP_RANGE_CACHE_TTL"
    using entry that by (rule fetch_hit)
  have stale: "net_calls (snd (fetch_ip_ranges w2 s1 k)) = net_calls s1 @ [url]
          \<and> (download_ranges w2 url = Inr rs2 \<longrightarrow>
                fst (fetch_ip_ranges w2 s1 k) = rs2
                \<and> ip_range_cache (snd (fetch_ip_ranges w2 s1 k)) k = Some (rs2, clock w2))"
    if old: "IP_RANGE_CACHE_TTL \<le> clock w2 - clock w1"
  proof -
    have miss: "cache_hit s1 (clock w2) k = None"
      using entry old by (simp add: cache_hit_def)
    show ?thesis
    proof (cases "download_ranges w2 url")
      case (Inl e)
      show ?thesis
        using fetch_miss_failure [OF miss assms(1) Inl] Inl by simp
    next
      case (Inr rs)
      show ?thesis
        using fetch_miss_success [OF miss assms(1) Inr] Inr by simp
    qed
  qed
  show ?thesis using r1 calls entry fresh stale by blast
qed

lemma sample_download:
  "download_ranges (sample_world\<lparr>clock := t\<rparr>)
     ''https://developers.google.com/search/apis/ipranges/googlebot.json''
   = Inr [JStr ''not-a-cidr'', JStr ''66.249.64.0/19'']"
  by (simp add: download_ranges_def sample_world_def parse_sample_json)

lemma sample_download0:
  "download_ranges sample_world
     ''https://developers.google.com/search/apis/ipranges/googlebot.json''
   = Inr [JStr ''not-a-cidr'', JStr ''66.249.64.0/19'']"
  by (simp add: download_ranges_def sample_world_def parse_sample_json)

lemma empty_miss: "cache_hit empty_state (clock sample_world) ''googlebot'' = None"
  by (simp add: cache_hit_def empty_state_def)

theorem C7_witness:
  "fetch_ip_ranges sample_world empty_state ''googlebot''
     = ([JStr ''not-a-cidr'', JStr ''66.249.64.0/19''], cached_state)
   \<and> clock (sample_world\<lparr>clock := 5000\<rparr>) - clock sample_world < IP_RANGE_CACHE_TTL
   \<and> fetch_ip_ranges (sample_world\<lparr>clock := 5000\<rparr>) cached_state ''googlebot''
     = ([JStr ''not-a-cidr'', JStr ''66.249.64.0/19''], cached_state)
   \<and> IP_RANGE_CACHE_TTL \<le> clock (sample_world\<lparr>clock := 19000\<rparr>) - clock sample_world
   \<and> net_calls (snd (fetch_ip_ranges (sample_world\<lparr>clock := 19000\<rparr>) cached_state ''googlebot''))
     = net_calls cached_state
         @ [''https://developers.google.com/search/apis/ipranges/googlebot.json'']
   \<and> ip_range_cache (snd (fetch_ip_ranges (sample_world\<lparr>clock := 19000\<rparr>) cached_state
         ''googlebot'')) ''googlebot''
     = Some ([JStr ''not-a-cidr'', JStr ''66.249.64.0/19''], 19000)"
proof -
  have a: "clock (sample_world\<lparr>clock := 5000\<rparr>) - clock sample_world < IP_RANGE_CACHE_TTL"
    by (simp add: sample_world_def IP_RANGE_CACHE_TTL_def)
  have b: "IP_RANGE_CACHE_TTL \<le> clock (sample_world\<lparr>clock := 19000\<rparr>) - clock sample_world"
    by (simp add: sample_world_def IP_RANGE_CACHE_TTL_def)
  show ?thesis
    using a b fetch_sample
      C7_cache_respects_ttl [OF source_googlebot empty_miss sample_download0 fetch_sample,
        of "sample_world\<lparr>clock := 5000\<rparr>"]
      C7_cache_respects_ttl [OF source_googlebot empty_miss sample_download0 fetch_sample,
        of "sample_world\<lparr>clock := 19000\<rparr>" "[JStr ''not-a-cidr'', JStr ''66.249.64.0/19'']"]
      sample_download [of 19000]
    by simp
qed

subsection \<open>Range matcher\<close>

lemma in_some_network_iff:
  "in_some_network w a rs \<longleftrightarrow>
     (\<exists>c \<in> set rs. \<exists>n. ip_network_parse w c = Some n \<and> net_contains w n a)"
  by (induction rs) (auto split: option.splits)

text \<open>
  C8. For every range list that \<open>fetch_ip_ranges\<close> returns and every input address:
  \<open>verify_ip_range\<close> returns true exactly when the address parses and lies in some
  entry of the list that parses as a network, so entries that do not parse are skipped
  one by one and the valid entries of the same list still match; an address that does
  not parse gives false as a value.
\<close>

theorem C8_malformed_entries_skipped:
  assumes "fetch_ip_ranges w s k = (rs, s')"
  shows "verify_ip_range w s ip k =
      ((\<exists>a. ip_address_parse w ip = Some a
           \<and> (\<exists>c \<in> set rs. \<exists>n. ip_network_parse w c = Some n \<and> net_contains w n a)), s')
     \<and> (ip_address_parse w ip = None \<longrightarrow> verify_ip_range w s ip k = (False, s'))"
proof (cases "ip_address_parse w ip")
  case None
  then show ?thesis using assms by (simp add: verify_ip_range_def)
next
  case (Some a)
  show ?thesis
  proof (cases "rs = []")
    case True
    then show ?thesis using assms Some by (simp add: verify_ip_range_def)
  next
    case False
    then show ?thesis
      using assms Some by (simp add: verify_ip_range_def in_some_network_iff)
  qed
qed

theorem C8_witness:
  "fetch_ip_ranges sample_world empty_state ''googlebot''
     = ([JStr ''not-a-cidr'', JStr ''66.249.64.0/19''], cached_state)
   \<and> ip_network_parse sample_world (JStr ''not-a-cidr'') = None
   \<and> verify_ip_range sample_world empty_state ''66.249.66.1'' ''googlebot'' = (True, cached_state)
   \<and> ip_address_parse sample_world ''not-an-ip'' = None
   \<and> verify_ip_range sample_world empty_state ''not-an-ip'' ''googlebot'' = (False, cached_state)"
proof -
  have m: "ip_network_parse sample_world (JStr ''not-a-cidr'') = None"
    by (simp add: sample_world_def eval_ip)
  have v: "ip_network_parse sample_world (JStr ''66.249.64.0/19'') = Some (1123631104, 8192)"
    by (simp add: sample_world_def eval_ip)
  have a: "ip_address_parse sample_world ''66.249.66.1'' = Some 1123631617"
    by (simp add: sample_world_def eval_ip)
  have c: "net_contains sample_world (1123631104, 8192) 1123631617"
    by (simp add: sample_world_def eval_ip)
  have b: "ip_address_parse sample_world ''not-an-ip'' = None"
    by (simp add: sample_world_def eval_ip)
  show ?thesis
    using fetch_sample m v a b c
      C8_malformed_entries_skipped [OF fetch_sample, of "''66.249.66.1''"]
      C8_malformed_entries_skipped [OF fetch_sample, of "''not-an-ip''"]
    by simp
qed

subsection \<open>Exceptions that leave the call\<close>

lemma verify_rdns_total:
  assumes "\<forall>x e. gethostbyaddr w x = Inl e \<longrightarrow> is_OSError e"
    and "\<forall>x e. getaddrinfo w x = Inl e \<longrightarrow> is_OSError e"
  shows "\<exists>p. verify_rdns w ip k = Inr p"
proof -
  have r: "\<exists>h. reverse_dns_lookup w ip = Inr h"
    using assms(1) by (cases "gethostbyaddr w ip") (simp_all add: reverse_dns_lookup_def)
  have f: "\<exists>ips. forward_dns_lookup w x = Inr ips" for x
    using assms(2) by (cases "getaddrinfo w x") (simp_all add: forward_dns_lookup_def)
  from r obtain h where h: "reverse_dns_lookup w ip = Inr h" by blast
  show ?thesis
  proof (cases h)
    case None
    then show ?thesis using h by (auto simp: verify_rdns_def)
  next
    case (Some host)
    from f [of host] obtain ips where "forward_dns_lookup w host = Inr ips" by blast
    then show ?thesis using h Some by (auto simp: verify_rdns_def Let_def)
  qed
qed

lemma is_verified_crawler_total:
  assumes "\<forall>x e. gethostbyaddr w x = Inl e \<longrightarrow> is_OSError e"
    and "\<forall>x e. getaddrinfo w x = Inl e \<longrightarrow> is_OSError e"
  shows "\<exists>r s'. is_verified_crawler w s ip ua rb = Inr (r, s')"
proof (cases "extract_crawler_identity ua")
  case None
  then show ?thesis by (simp add: is_verified_crawler_def)
next
  case (Some k)
  from verify_rdns_total [OF assms]
  obtain p where "verify_rdns w ip k = Inr p" by blast
  then obtain d h where v: "verify_rdns w ip k = Inr (d, h)" by (cases p) simp
  obtain g u where q: "verify_ip_range w s ip k = (g, u)"
    by (cases "verify_ip_range w s ip k")
  show ?thesis
    using is_verified_crawler_classified [OF Some v q, of rb] by simp
qed

lemma idna_rdns_raises: "verify_rdns idna_world ''1..2'' ''googlebot'' = Inl UnicodeError"
  by (simp add: verify_rdns_def reverse_dns_lookup_def idna_world_def)

text \<open>
  C9 fails on the code. \<open>reverse_dns_lookup\<close> catches \<open>OSError\<close> and its subclasses
  only, while the resolver call raises \<open>UnicodeError\<close> for a malformed address with an
  empty label; the exception leaves \<open>is_verified_crawler\<close> and no result is
  returned. The lemma \<open>is_verified_crawler_total\<close> above gives the boundary: the call
  returns a result whenever the resolver raises nothing but \<open>OSError\<close>.
\<close>

theorem C9_unicode_error_escapes:
  "gethostbyaddr idna_world ''1..2'' = Inl UnicodeError
   \<and> is_verified_crawler idna_world empty_state ''1..2'' ''Googlebot/2.1'' False
       = Inl UnicodeError"
  using is_verified_crawler_raises [OF extract_googlebot idna_rdns_raises, of empty_state False]
  by (simp add: idna_world_def)

end
